theory Spec2Isabelle
  imports Complex_Main
begin

section \<open>TravelTracker: data model (models.py)\<close>

text \<open>
  Python's \<open>float\<close> amounts are modelled as \<open>real\<close> numbers: sums and comparisons
  are exact. Python's \<open>int\<close> is \<open>int\<close>; \<open>Optional[T]\<close> is \<open>T option\<close>.
\<close>

datatype ExpenseCategory =
  TRANSPORT | ACCOMMODATION | FOOD | ENTERTAINMENT | SHOPPING | SIGHTSEEING | OTHER

datatype TripStatus = PLANNED | IN_PROGRESS | COMPLETED | CANCELLED

datatype error = ValueError

subsection \<open>Calendar dates\<close>

text \<open>
  A \<open>datetime.date\<close> is its three fields. Two dates are compared field by field
  (year, then month, then day) and subtracted through their proleptic Gregorian
  ordinals, as the standard library does: \<open>(d2 - d1).days = d2.toordinal() - d1.toordinal()\<close>.
\<close>

record date =
  year :: int
  month :: int
  day :: int

definition is_leap :: "int \<Rightarrow> bool" where
  "is_leap y = (y mod 4 = 0 \<and> (y mod 100 \<noteq> 0 \<or> y mod 400 = 0))"

definition days_before_year :: "int \<Rightarrow> int" where
  "days_before_year y = (y - 1) * 365 + (y - 1) div 4 - (y - 1) div 100 + (y - 1) div 400"

definition days_in_month :: "int \<Rightarrow> int \<Rightarrow> int" where
  "days_in_month y m =
     (if m = 2 then (if is_leap y then 29 else 28)
      else if m = 4 \<or> m = 6 \<or> m = 9 \<or> m = 11 then 30 else 31)"

definition days_before_month :: "int \<Rightarrow> int \<Rightarrow> int" where
  "days_before_month y m = (\<Sum>k \<leftarrow> [1..<nat m]. days_in_month y (int k))"

definition toordinal :: "date \<Rightarrow> int" where
  "toordinal d = days_before_year (year d) + days_before_month (year d) (month d) + day d"

definition date_less :: "date \<Rightarrow> date \<Rightarrow> bool" where
  "date_less a b =
     (year a < year b \<or> (year a = year b \<and>
        (month a < month b \<or> (month a = month b \<and> day a < day b))))"

definition days_between :: "date \<Rightarrow> date \<Rightarrow> int" where
  \<comment> \<open>\<open>(b - a).days\<close>\<close>
  "days_between a b = toordinal b - toordinal a"

subsection \<open>Trip\<close>

record Trip =
  t_id :: "int option"
  t_name :: string
  t_description :: string
  t_start_date :: "date option"
  t_end_date :: "date option"
  t_budget :: real
  t_actual_spent :: real
  t_currency :: string
  t_destination :: string
  t_status :: TripStatus
  t_participants :: string

definition duration_days :: "Trip \<Rightarrow> int" where
  "duration_days t =
     (case (t_start_date t, t_end_date t) of
        (Some s, Some e) \<Rightarrow> days_between s e + 1
      | _ \<Rightarrow> 0)"

definition budget_balance :: "Trip \<Rightarrow> real" where
  "budget_balance t = t_budget t - t_actual_spent t"

subsection \<open>Expense\<close>

record Expense =
  e_id :: "int option"
  e_trip_id :: int
  e_amount :: real
  e_currency :: string
  e_category :: ExpenseCategory
  e_date :: "date option"
  e_description :: string
  e_payment_method :: string
  e_location :: string

definition post_init :: "Expense \<Rightarrow> error + Expense" where
  \<comment> \<open>\<open>__post_init__\<close>: raises \<open>ValueError\<close> when \<open>amount <= 0\<close>\<close>
  "post_init e = (if e_amount e \<le> 0 then Inl ValueError else Inr e)"

definition new_Expense ::
  "int option \<Rightarrow> int \<Rightarrow> real \<Rightarrow> string \<Rightarrow> ExpenseCategory \<Rightarrow> date option \<Rightarrow>
   string \<Rightarrow> string \<Rightarrow> string \<Rightarrow> error + Expense" where
  \<comment> \<open>the generated \<open>__init__\<close>: stores the nine fields, then runs \<open>__post_init__\<close>\<close>
  "new_Expense i tid amt cur cat d descr pm loc =
     post_init \<lparr>e_id = i, e_trip_id = tid, e_amount = amt, e_currency = cur,
                e_category = cat, e_date = d, e_description = descr,
                e_payment_method = pm, e_location = loc\<rparr>"

section \<open>Validation helpers (utils.py)\<close>

subsection \<open>Strings\<close>

text \<open>
  A Python \<open>str\<close> is a \<open>string\<close>; its characters stand for the code points
  below 256. Among these, \<open>str.strip()\<close> removes the twelve that Python counts
  as whitespace, and the pattern class \<open>\d\<close> matches the ten ASCII digits only.
\<close>

definition is_space :: "char \<Rightarrow> bool" where
  "is_space c = ((of_char c :: nat) \<in> {9, 10, 11, 12, 13, 28, 29, 30, 31, 32, 133, 160})"

definition is_digit :: "char \<Rightarrow> bool" where
  "is_digit c = (48 \<le> (of_char c :: nat) \<and> (of_char c :: nat) \<le> 57)"

definition strip :: "string \<Rightarrow> string" where
  "strip s = rev (dropWhile is_space (rev (dropWhile is_space s)))"

definition replace :: "char \<Rightarrow> string \<Rightarrow> string \<Rightarrow> string" where
  \<comment> \<open>\<open>s.replace(old, new)\<close> for a pattern \<open>old\<close> of one character\<close>
  "replace old new s = concat (map (\<lambda>c. if c = old then new else [c]) s)"

definition slice_to :: "int \<Rightarrow> string \<Rightarrow> string" where
  \<comment> \<open>\<open>s[:n]\<close>: a negative \<open>n\<close> counts from the end\<close>
  "slice_to n s = (if 0 \<le> n then take (nat n) s else take (nat (int (length s) + n)) s)"

subsection \<open>sanitize_input\<close>

definition sanitize_input :: "string \<Rightarrow> int \<Rightarrow> string" where
  "sanitize_input text max_length =
     (let text1 = strip text;
          text2 = (if int (length text1) > max_length then slice_to max_length text1 else text1)
      in replace (CHR 0x27) ''&#39;''
           (replace (CHR 0x22) ''&quot;''
             (replace (CHR ''>'') ''&gt;''
               (replace (CHR ''<'') ''&lt;''
                 (replace (CHR ''&'') ''&amp;'' text2)))))"

subsection \<open>validate_currency_amount\<close>

text \<open>
  The pattern \<open>^\d+(\.\d{1,2})?$\<close> under \<open>re.match\<close>: the digits are taken
  greedily (giving one back never helps, as a digit would follow); the group is one
  digit or two after a dot; \<open>$\<close> holds at the end of the text and also just before
  a newline that ends it.
\<close>

definition dollar :: "string \<Rightarrow> bool" where
  "dollar r = (r = [] \<or> r = [CHR 0x0A])"

definition re_match_amount :: "string \<Rightarrow> bool" where
  "re_match_amount s =
     (let ds = takeWhile is_digit s; r = dropWhile is_digit s
      in ds \<noteq> [] \<and>
         (dollar r \<or>
          (case r of
             [] \<Rightarrow> False
           | c # f \<Rightarrow> c = CHR ''.'' \<and>
               (case f of
                  [] \<Rightarrow> False
                | a # t \<Rightarrow> is_digit a \<and>
                    (dollar t \<or> (case t of [] \<Rightarrow> False | b # u \<Rightarrow> is_digit b \<and> dollar u))))))"

definition digits_value :: "string \<Rightarrow> nat" where
  "digits_value ds = foldl (\<lambda>a c. 10 * a + ((of_char c :: nat) - 48)) 0 ds"

definition decimal_value :: "string \<Rightarrow> real" where
  \<comment> \<open>the number written as digits, with an optional dot and further digits\<close>
  "decimal_value s =
     (let ip = takeWhile is_digit s; fp = drop 1 (dropWhile is_digit s)
      in real (digits_value ip) + real (digits_value fp) / 10 ^ length fp)"

definition float :: "string \<Rightarrow> error + real" where
  \<comment> \<open>\<open>float(s)\<close> on plain decimal text (digits, at most one dot, whitespace around it
      ignored), the only kind the pattern lets through; other text is answered with
      \<open>ValueError\<close> here\<close>
  "float s =
     (let t = strip s; ip = takeWhile is_digit t; r = dropWhile is_digit t
      in if (r = [] \<or> (hd r = CHR ''.'' \<and> list_all is_digit (tl r))) \<and> (ip \<noteq> [] \<or> 1 < length r)
         then Inr (decimal_value t) else Inl ValueError)"

definition msg_amount_format :: string where
  "msg_amount_format = ''Invalid amount format. Use numbers with at most two decimal places''"

definition msg_amount_positive :: string where
  "msg_amount_positive = ''The amount must be positive''"

definition msg_amount_invalid :: string where
  "msg_amount_invalid = ''Invalid amount format''"

definition validate_currency_amount :: "string \<Rightarrow> bool \<times> real \<times> string" where
  "validate_currency_amount amount_str =
     (let clean_str = replace (CHR '','') ''.'' (strip amount_str)
      in if \<not> re_match_amount clean_str then (False, 0, msg_amount_format)
         else (case float clean_str of
                 Inl ValueError \<Rightarrow> (False, 0, msg_amount_invalid)
               | Inr amount \<Rightarrow>
                   if amount \<le> 0 then (False, 0, msg_amount_positive)
                   else (True, amount, [])))"

text \<open>
  The pattern in the specification's words: one or more digits, optionally followed by
  a dot and one or two digits.
\<close>

definition digits1 :: "string \<Rightarrow> bool" where
  "digits1 s = (s \<noteq> [] \<and> list_all is_digit s)"

definition spec_amount_pattern :: "string \<Rightarrow> bool" where
  "spec_amount_pattern s =
     (let ip = takeWhile (\<lambda>c. c \<noteq> CHR ''.'') s; r = dropWhile (\<lambda>c. c \<noteq> CHR ''.'') s
      in digits1 ip \<and>
         (r = [] \<or> (list_all is_digit (tl r) \<and> (length (tl r) = 1 \<or> length (tl r) = 2))))"

text \<open>
  The two shapes of plain decimal text: digits \<open>ip\<close>, or digits \<open>ip\<close>, a dot and one
  or two digits \<open>fp\<close>.
\<close>

definition plain_decimal :: "string \<Rightarrow> string \<Rightarrow> string \<Rightarrow> bool" where
  "plain_decimal c ip fp = (ip \<noteq> [] \<and> list_all is_digit ip \<and> list_all is_digit fp \<and>
      (c = ip \<and> fp = [] \<or> (c = ip @ CHR ''.'' # fp \<and> (length fp = 1 \<or> length fp = 2))))"

subsection \<open>validate_date_range\<close>













section \<open>Storage (storage.py)\<close>

text \<open>
  The SQLite file is a record of its two tables and of the largest row id ever given
  out in each (the engine's \<open>sqlite_sequence\<close>, kept for \<open>AUTOINCREMENT\<close>). A row is
  its primary key paired with the record that was written; the record's own \<open>id\<close>
  field is not a column of the \<open>INSERT\<close> and is filled in from the key when the row is
  read. Dates go to ISO text and back, categories and statuses to their labels and
  back: the rows keep them as they are.
\<close>

record database =
  trips :: "(int \<times> Trip) list"
  expenses :: "(int \<times> Expense) list"
  trips_seq :: int
  expenses_seq :: int

definition init_db :: database where
  \<comment> \<open>\<open>_init_db\<close> on a new file: both tables created, both empty\<close>
  "init_db = \<lparr>trips = [], expenses = [], trips_seq = 0, expenses_seq = 0\<rparr>"

definition foreign_keys :: bool where
  \<comment> \<open>SQLite enforces foreign keys on a connection only after \<open>PRAGMA foreign_keys = ON\<close>;
      every method opens its own connection with \<open>sqlite3.connect\<close> and none issues it\<close>
  "foreign_keys = False"

definition next_rowid :: "int \<Rightarrow> int list \<Rightarrow> int" where
  \<comment> \<open>one more than the largest key in the table and than the largest ever given out\<close>
  "next_rowid seq ids = foldr max ids seq + 1"

definition add_trip :: "Trip \<Rightarrow> database \<Rightarrow> int \<times> database" where
  "add_trip trip db =
     (let trip_id = next_rowid (trips_seq db) (map fst (trips db));
          db1 = db\<lparr>trips := trips db @ [(trip_id, trip)], trips_seq := trip_id\<rparr>
      in (if trip_id \<noteq> 0 then trip_id else 0, db1))"

definition sum_amounts :: "int \<Rightarrow> (int \<times> Expense) list \<Rightarrow> real" where
  \<comment> \<open>\<open>SELECT COALESCE(SUM(amount), 0) FROM expenses WHERE trip_id = ?\<close>\<close>
  "sum_amounts tid rows = sum_list (map (\<lambda>r. e_amount (snd r)) (filter (\<lambda>r. e_trip_id (snd r) = tid) rows))"

definition add_expense :: "Expense \<Rightarrow> database \<Rightarrow> int \<times> database" where
  "add_expense expense db =
     (let expense_id = next_rowid (expenses_seq db) (map fst (expenses db));
          db1 = db\<lparr>expenses := expenses db @ [(expense_id, expense)], expenses_seq := expense_id\<rparr>;
          total = sum_amounts (e_trip_id expense) (expenses db1);
          db2 = db1\<lparr>trips := map (\<lambda>(i, t). if i = e_trip_id expense
                                            then (i, t\<lparr>t_actual_spent := total\<rparr>) else (i, t))
                                 (trips db1)\<rparr>
      in (if expense_id \<noteq> 0 then expense_id else 0, db2))"

definition get_all_trips :: "database \<Rightarrow> Trip list" where
  \<comment> \<open>\<open>SELECT * FROM trips ORDER BY id DESC\<close>\<close>
  "get_all_trips db = map (\<lambda>(i, t). t\<lparr>t_id := Some i\<rparr>) (sort_key (\<lambda>r. - fst r) (trips db))"

definition date_key :: "date option \<Rightarrow> int" where
  \<comment> \<open>the order of the stored ISO text; \<open>NULL\<close> sorts below every text\<close>
  "date_key d = (case d of None \<Rightarrow> 0 | Some x \<Rightarrow> year x * 10000 + month x * 100 + day x)"

fun build_expenses :: "(int \<times> Expense) list \<Rightarrow> error + Expense list" where
  "build_expenses [] = Inr []"
| "build_expenses ((i, x) # rows) =
     (case new_Expense (Some i) (e_trip_id x) (e_amount x) (e_currency x) (e_category x)
             (e_date x) (e_description x) (e_payment_method x) (e_location x) of
        Inl err \<Rightarrow> Inl err
      | Inr expense \<Rightarrow>
          (case build_expenses rows of
             Inl err \<Rightarrow> Inl err
           | Inr built \<Rightarrow> Inr (expense # built)))"

definition get_expenses_by_trip :: "database \<Rightarrow> int \<Rightarrow> error + Expense list" where
  \<comment> \<open>\<open>SELECT * FROM expenses WHERE trip_id = ? ORDER BY date DESC\<close>, each row then
      passed to the \<open>Expense\<close> constructor; rows of equal date keep their table order\<close>
  "get_expenses_by_trip db trip_id =
     build_expenses (sort_key (\<lambda>r. - date_key (e_date (snd r)))
                      (filter (\<lambda>r. e_trip_id (snd r) = trip_id) (expenses db)))"

definition sql_delete_trip :: "bool \<Rightarrow> int \<Rightarrow> database \<Rightarrow> nat \<times> database" where
  \<comment> \<open>\<open>DELETE FROM trips WHERE id = ?\<close> and the number of rows deleted; the clause
      \<open>ON DELETE CASCADE\<close> of \<open>expenses.trip_id\<close> acts when foreign keys are enforced\<close>
  "sql_delete_trip fk trip_id db =
     (let hit = filter (\<lambda>r. fst r = trip_id) (trips db)
      in (length hit,
          db\<lparr>trips := filter (\<lambda>r. fst r \<noteq> trip_id) (trips db),
             expenses := (if fk \<and> hit \<noteq> []
                          then filter (\<lambda>r. e_trip_id (snd r) \<noteq> trip_id) (expenses db)
                          else expenses db)\<rparr>))"

definition delete_trip :: "int \<Rightarrow> database \<Rightarrow> bool \<times> database" where
  "delete_trip trip_id db =
     (let (rowcount, db1) = sql_delete_trip foreign_keys trip_id db in (rowcount > 0, db1))"

definition delete_expense :: "int \<Rightarrow> database \<Rightarrow> bool \<times> database" where
  \<comment> \<open>\<open>DELETE FROM expenses WHERE id = ?\<close>\<close>
  "delete_expense expense_id db =
     (let hit = filter (\<lambda>r. fst r = expense_id) (expenses db)
      in (length hit > 0, db\<lparr>expenses := filter (\<lambda>r. fst r \<noteq> expense_id) (expenses db)\<rparr>))"

definition get_total_expenses_by_trip :: "database \<Rightarrow> int \<Rightarrow> real" where
  "get_total_expenses_by_trip db trip_id = sum_amounts trip_id (expenses db)"

definition get_trip_by_id :: "database \<Rightarrow> int \<Rightarrow> Trip option" where
  "get_trip_by_id db trip_id = find (\<lambda>t. t_id t = Some trip_id) (get_all_trips db)"

definition primary_keys :: "database \<Rightarrow> bool" where
  \<comment> \<open>what \<open>PRIMARY KEY AUTOINCREMENT\<close> maintains: keys are unique in each table and
      none exceeds the largest ever given out\<close>
  "primary_keys db =
     (distinct (map fst (trips db)) \<and> distinct (map fst (expenses db)) \<and>
      list_all (\<lambda>r. fst r \<le> trips_seq db) (trips db) \<and>
      list_all (\<lambda>r. fst r \<le> expenses_seq db) (expenses db))"

section \<open>Analysis (analysis.py)\<close>

text \<open>
  The analyzer holds the two lists it is given; its two data frames have one row per
  trip and one row per expense, so a frame is empty exactly when its list is. A
  summary is a dictionary: either the empty one or one with the five keys. The
  breakdown by category lists the categories present, in the order of their labels,
  which is the order \<open>groupby\<close> gives them.
\<close>

record TravelAnalyzer =
  a_trips :: "Trip list"
  a_expenses :: "Expense list"

record summary =
  s_total :: real
  s_by_category :: "(ExpenseCategory \<times> real) list"
  s_daily_avg :: real
  s_max_expense :: real
  s_expense_count :: nat

datatype summary_dict = Empty_dict | Summary summary

definition label_order :: "ExpenseCategory list" where
  "label_order = [SIGHTSEEING, OTHER, FOOD, ACCOMMODATION, ENTERTAINMENT, TRANSPORT, SHOPPING]"

definition group_by_category :: "Expense list \<Rightarrow> (ExpenseCategory \<times> real) list" where
  \<comment> \<open>\<open>groupby('category')['amount'].sum().to_dict()\<close>\<close>
  "group_by_category xs =
     map (\<lambda>c. (c, sum_list (map e_amount (filter (\<lambda>e. e_category e = c) xs))))
         (filter (\<lambda>c. c \<in> set (map e_category xs)) label_order)"

definition date_max :: "date \<Rightarrow> date \<Rightarrow> date" where
  "date_max a b = (if date_less a b then b else a)"

definition date_min :: "date \<Rightarrow> date \<Rightarrow> date" where
  "date_min a b = (if date_less b a then b else a)"

definition dropna :: "'a option list \<Rightarrow> 'a list" where
  "dropna xs = concat (map (\<lambda>x. case x of None \<Rightarrow> [] | Some v \<Rightarrow> [v]) xs)"

definition get_trip_expense_summary :: "TravelAnalyzer \<Rightarrow> int \<Rightarrow> summary_dict" where
  "get_trip_expense_summary an trip_id =
     (if a_expenses an = [] then Empty_dict
      else
        (let trip_expenses = filter (\<lambda>e. e_trip_id e = trip_id) (a_expenses an)
         in case trip_expenses of
              [] \<Rightarrow> Summary \<lparr>s_total = 0, s_by_category = [], s_daily_avg = 0,
                              s_max_expense = 0, s_expense_count = 0\<rparr>
            | x # xs \<Rightarrow>
                (let tot = sum_list (map e_amount trip_expenses);
                     trip_dates = dropna (map e_date trip_expenses);
                     avg = (case trip_dates of
                              d # d' # ds \<Rightarrow>
                                (let days = days_between (foldl date_min d (d' # ds))
                                                         (foldl date_max d (d' # ds)) + 1
                                 in if days > 0 then tot / real_of_int days else tot)
                            | _ \<Rightarrow> tot)
                 in Summary \<lparr>s_total = tot,
                              s_by_category = group_by_category trip_expenses,
                              s_daily_avg = avg,
                              s_max_expense = foldl max (e_amount x) (map e_amount xs),
                              s_expense_count = length trip_expenses\<rparr>)))"

datatype recommendation =
    No_data
  | Category_share ExpenseCategory real
  | High_daily_average real
  | Great_savings real
  | Balanced

definition get_trip_recommendations :: "TravelAnalyzer \<Rightarrow> int \<Rightarrow> recommendation list" where
  "get_trip_recommendations an trip_id =
     (case get_trip_expense_summary an trip_id of
        Empty_dict \<Rightarrow> [No_data]
      | Summary s \<Rightarrow>
          if s_expense_count s = 0 then [No_data]
          else
            (let recs1 =
                   (if s_total s > 0 then
                      concat (map (\<lambda>(category, amount).
                                     if amount / s_total s * 100 > 50
                                     then [Category_share category (amount / s_total s * 100)]
                                     else [])
                                  (s_by_category s))
                      @ (if s_daily_avg s > 200 then [High_daily_average (s_daily_avg s)]
                         else if s_daily_avg s < 50 then [Great_savings (s_daily_avg s)]
                         else [])
                    else []);
                 recs2 = (if recs1 = [] then [Balanced] else recs1)
             in take 5 recs2))"

section \<open>Fixtures of the unit tests (tests.py)\<close>

definition paris_trip :: Trip where
  "paris_trip =
     \<lparr>t_id = None, t_name = ''Paris holiday'', t_description = [],
      t_start_date = Some \<lparr>year = 2024, month = 6, day = 1\<rparr>,
      t_end_date = Some \<lparr>year = 2024, month = 6, day = 10\<rparr>,
      t_budget = 2000, t_actual_spent = 0, t_currency = ''USD'',
      t_destination = ''Paris, France'', t_status = PLANNED, t_participants = []\<rparr>"

definition test_trip :: Trip where
  "test_trip =
     \<lparr>t_id = None, t_name = ''Test'', t_description = [], t_start_date = None,
      t_end_date = None, t_budget = 1000, t_actual_spent = 0, t_currency = ''USD'',
      t_destination = [], t_status = PLANNED, t_participants = []\<rparr>"

definition test_expense :: "int \<Rightarrow> real \<Rightarrow> ExpenseCategory \<Rightarrow> Expense" where
  "test_expense trip_id amount category =
     \<lparr>e_id = None, e_trip_id = trip_id, e_amount = amount, e_currency = ''USD'',
      e_category = category, e_date = None, e_description = [],
      e_payment_method = ''Cash'', e_location = []\<rparr>"

definition one_trip_db :: database where
  \<comment> \<open>a new file after \<open>add_trip(Trip(name="Test", budget=1000.0))\<close>\<close>
  "one_trip_db = snd (add_trip test_trip init_db)"

definition one_expense_db :: database where
  \<comment> \<open>then \<open>add_expense(Expense(trip_id=1, amount=150.0, category=TRANSPORT))\<close>\<close>
  "one_expense_db = snd (add_expense (test_expense 1 150 TRANSPORT) one_trip_db)"

definition summary_fixture :: TravelAnalyzer where
  \<comment> \<open>the analyzer of \<open>test_expense_summary\<close>: one trip (id 1) and three of its expenses\<close>
  "summary_fixture =
     \<lparr>a_trips = [test_trip\<lparr>t_id := Some 1\<rparr>],
      a_expenses = [test_expense 1 100 FOOD, test_expense 1 200 TRANSPORT,
                    test_expense 1 50 FOOD]\<rparr>"

section \<open>Properties of the data model\<close>

text \<open>
  C3. Whatever the other fields are, constructing an Expense whose amount is at most 0
  fails with the constructor's error, and constructing one whose amount is above 0
  succeeds and yields the record with exactly the given fields. The check is part of
  construction itself (\<open>post_init\<close> runs inside \<open>new_Expense\<close>).
\<close>

theorem expense_construction_validates_amount:
  "(amt \<le> 0 \<longrightarrow> new_Expense i tid amt cur cat d descr pm loc = Inl ValueError) \<and>
   (0 < amt \<longrightarrow> new_Expense i tid amt cur cat d descr pm loc =
      Inr \<lparr>e_id = i, e_trip_id = tid, e_amount = amt, e_currency = cur,
           e_category = cat, e_date = d, e_description = descr,
           e_payment_method = pm, e_location = loc\<rparr>)"
  by (simp add: new_Expense_def post_init_def)

theorem expense_construction_validates_amount_witness:
  "new_Expense None 0 (-50) ''USD'' OTHER None [] ''cash'' [] = Inl ValueError \<and>
   new_Expense None 0 100 ''USD'' FOOD (Some \<lparr>year = 2024, month = 6, day = 2\<rparr>) [] ''cash'' [] =
     Inr \<lparr>e_id = None, e_trip_id = 0, e_amount = 100, e_currency = ''USD'',
          e_category = FOOD, e_date = Some \<lparr>year = 2024, month = 6, day = 2\<rparr>,
          e_description = [], e_payment_method = ''cash'', e_location = []\<rparr>"
  using expense_construction_validates_amount
          [of "-50" None 0 "''USD''" OTHER None "[]" "''cash''" "[]"]
        expense_construction_validates_amount
          [of 100 None 0 "''USD''" FOOD "Some \<lparr>year = 2024, month = 6, day = 2\<rparr>" "[]" "''cash''" "[]"]
  by simp

text \<open>
  C4. A trip with both dates present lasts the number of days from its start date to
  its end date, plus 1; a trip that lacks its start date or its end date lasts 0 days.
\<close>

theorem duration_days_spec:
  "(t_start_date t = Some d1 \<and> t_end_date t = Some d2 \<longrightarrow>
      duration_days t = (toordinal d2 - toordinal d1) + 1) \<and>
   (t_start_date t = None \<or> t_end_date t = None \<longrightarrow> duration_days t = 0)"
  by (auto simp: duration_days_def days_between_def split: option.splits)

theorem duration_days_spec_witness:
  "duration_days paris_trip = 10 \<and> duration_days test_trip = 0"
  using duration_days_spec
          [of paris_trip "\<lparr>year = 2024, month = 6, day = 1\<rparr>" "\<lparr>year = 2024, month = 6, day = 10\<rparr>"]
        duration_days_spec [of test_trip]
  by (simp add: paris_trip_def test_trip_def toordinal_def days_before_year_def
        days_before_month_def)

section \<open>Properties of the validation helpers\<close>

lemma replace_in:
  "c \<in> set (replace old new s) \<Longrightarrow> (c \<in> set s \<and> c \<noteq> old) \<or> c \<in> set new"
  by (auto simp: replace_def split: if_splits)

text \<open>
  C10. Whatever the text and the maximal length, the string that \<open>sanitize_input\<close>
  returns contains none of the characters \<open><\<close>, \<open>>\<close>, the double quote and the
  apostrophe.
\<close>

theorem sanitize_input_no_markup:
  "CHR ''<'' \<notin> set (sanitize_input text max_length) \<and>
   CHR ''>'' \<notin> set (sanitize_input text max_length) \<and>
   CHR 0x22 \<notin> set (sanitize_input text max_length) \<and>
   CHR 0x27 \<notin> set (sanitize_input text max_length)"
proof -
  have esc: "c \<notin> set (replace (CHR 0x27) ''&#39;''
           (replace (CHR 0x22) ''&quot;''
             (replace (CHR ''>'') ''&gt;''
               (replace (CHR ''<'') ''&lt;''
                 (replace (CHR ''&'') ''&amp;'' t)))))"
    if "c = CHR ''<'' \<or> c = CHR ''>'' \<or> c = CHR 0x22 \<or> c = CHR 0x27" for c t
    using that by (auto dest!: replace_in)
  show ?thesis
    unfolding sanitize_input_def Let_def by (intro conjI esc) simp_all
qed

lemma is_digit_facts:
  "is_digit c \<Longrightarrow> c \<noteq> CHR ''.''" "is_digit c \<Longrightarrow> \<not> is_space c" "is_digit c \<Longrightarrow> c \<noteq> CHR 0x0A"
  by (auto simp: is_digit_def is_space_def)

lemma newline_is_space: "is_space (CHR 0x0A)"
  by (simp add: is_space_def)

lemma digits_no_dot: "list_all is_digit ip \<Longrightarrow> CHR ''.'' \<notin> set ip"
  by (auto simp: list_all_iff dest: is_digit_facts(1))

lemma split_digits:
  assumes "list_all is_digit ip"
  shows "takeWhile is_digit (ip @ CHR ''.'' # fp) = ip"
    and "dropWhile is_digit (ip @ CHR ''.'' # fp) = CHR ''.'' # fp"
    and "takeWhile is_digit ip = ip"
    and "dropWhile is_digit ip = []"
proof -
  have a: "\<And>x. x \<in> set ip \<Longrightarrow> is_digit x" using assms by (simp add: list_all_iff)
  have b: "\<not> is_digit (CHR ''.'')" by (simp add: is_digit_def)
  show "takeWhile is_digit (ip @ CHR ''.'' # fp) = ip" using a b by (simp add: takeWhile_append2)
  show "dropWhile is_digit (ip @ CHR ''.'' # fp) = CHR ''.'' # fp" using a b by (simp add: dropWhile_append2)
  show "takeWhile is_digit ip = ip" using a by (simp add: takeWhile_eq_all_conv)
  show "dropWhile is_digit ip = []" using a by (simp add: dropWhile_eq_Nil_conv)
qed

lemma split_dot:
  assumes "list_all is_digit ip"
  shows "takeWhile (\<lambda>c. c \<noteq> CHR ''.'') (ip @ CHR ''.'' # fp) = ip"
    and "dropWhile (\<lambda>c. c \<noteq> CHR ''.'') (ip @ CHR ''.'' # fp) = CHR ''.'' # fp"
    and "takeWhile (\<lambda>c. c \<noteq> CHR ''.'') ip = ip"
    and "dropWhile (\<lambda>c. c \<noteq> CHR ''.'') ip = []"
proof -
  have a: "\<And>x. x \<in> set ip \<Longrightarrow> x \<noteq> CHR ''.''" using digits_no_dot [OF assms] by auto
  show "takeWhile (\<lambda>c. c \<noteq> CHR ''.'') (ip @ CHR ''.'' # fp) = ip" using a by (simp add: takeWhile_append2)
  show "dropWhile (\<lambda>c. c \<noteq> CHR ''.'') (ip @ CHR ''.'' # fp) = CHR ''.'' # fp" using a by (simp add: dropWhile_append2)
  show "takeWhile (\<lambda>c. c \<noteq> CHR ''.'') ip = ip" using a by (simp add: takeWhile_eq_all_conv)
  show "dropWhile (\<lambda>c. c \<noteq> CHR ''.'') ip = []" using a by (simp add: dropWhile_eq_Nil_conv)
qed

lemma plain_decimal_spec:
  assumes "plain_decimal c ip fp" shows "spec_amount_pattern c"
proof -
  from assms have d: "list_all is_digit ip" "ip \<noteq> []" "list_all is_digit fp"
    by (simp_all add: plain_decimal_def)
  from assms consider "c = ip" | "c = ip @ CHR ''.'' # fp" "length fp = 1 \<or> length fp = 2"
    by (auto simp: plain_decimal_def)
  then show ?thesis
  proof cases
    case 1
    then show ?thesis using d by (simp add: spec_amount_pattern_def digits1_def split_dot)
  next
    case 2
    then show ?thesis using d by (simp add: spec_amount_pattern_def digits1_def split_dot)
  qed
qed

lemma spec_plain_decimal:
  assumes "spec_amount_pattern c"
  shows "\<exists>ip fp. plain_decimal c ip fp"
proof -
  let ?ip = "takeWhile (\<lambda>x. x \<noteq> CHR ''.'') c" and ?r = "dropWhile (\<lambda>x. x \<noteq> CHR ''.'') c"
  have c: "c = ?ip @ ?r" by simp
  from assms have d: "?ip \<noteq> []" "list_all is_digit ?ip"
    and r: "?r = [] \<or> (list_all is_digit (tl ?r) \<and> (length (tl ?r) = 1 \<or> length (tl ?r) = 2))"
    by (simp_all add: spec_amount_pattern_def digits1_def Let_def)
  show ?thesis
  proof (cases "?r")
    case Nil
    with c have "c = ?ip" by simp
    with d have "plain_decimal c ?ip []" by (simp add: plain_decimal_def)
    then show ?thesis by blast
  next
    case (Cons x xs)
    then have "x = CHR ''.''" using hd_dropWhile [of "\<lambda>x. x \<noteq> CHR ''.''" c] by auto
    with Cons c have c': "c = ?ip @ CHR ''.'' # xs" by simp
    from Cons r have "list_all is_digit xs" "length xs = 1 \<or> length xs = 2" by simp_all
    with d c' have "plain_decimal c ?ip xs" unfolding plain_decimal_def by blast
    then show ?thesis by blast
  qed
qed

lemma plain_decimal_re:
  assumes "plain_decimal c ip fp" shows "re_match_amount c"
proof -
  from assms have d: "list_all is_digit ip" "ip \<noteq> []" "list_all is_digit fp"
    by (simp_all add: plain_decimal_def)
  from assms consider "c = ip" | a where "c = ip @ [CHR ''.'', a]" "is_digit a"
    | a b where "c = ip @ [CHR ''.'', a, b]" "is_digit a" "is_digit b"
    by (auto simp: plain_decimal_def length_Suc_conv numeral_2_eq_2)
  then show ?thesis
  proof cases
    case 1
    then show ?thesis using d by (simp add: re_match_amount_def split_digits dollar_def)
  next
    case 2
    then show ?thesis using d by (simp add: re_match_amount_def split_digits dollar_def)
  next
    case 3
    then show ?thesis using d by (simp add: re_match_amount_def split_digits dollar_def)
  qed
qed

lemma re_plain_decimal:
  assumes "re_match_amount c" and "c = [] \<or> last c \<noteq> CHR 0x0A"
  shows "\<exists>ip fp. plain_decimal c ip fp"
proof -
  let ?ip = "takeWhile is_digit c" and ?r = "dropWhile is_digit c"
  have c: "c = ?ip @ ?r" by simp
  have ip: "?ip \<noteq> []" "list_all is_digit ?ip"
    using assms(1) by (auto simp: re_match_amount_def Let_def list_all_iff dest: set_takeWhileD)
  have nl: "last ?r \<noteq> CHR 0x0A" if "?r \<noteq> []"
  proof -
    from that have "last c = last ?r" using last_appendR [of ?r ?ip] by simp
    moreover from that have "c \<noteq> []" by auto
    ultimately show ?thesis using assms(2) by simp
  qed
  have dol: "t = []" if "dollar t" "?r = pre @ t" for pre t
  proof (rule ccontr)
    assume "t \<noteq> []"
    with that(1) have t: "t = [CHR 0x0A]" by (simp add: dollar_def)
    with that(2) have "?r \<noteq> []" "last ?r = CHR 0x0A" by simp_all
    with nl show False by simp
  qed
  from assms(1) have R: "dollar ?r \<or>
     (\<exists>a t. ?r = CHR ''.'' # a # t \<and> is_digit a \<and>
            (dollar t \<or> (\<exists>b u. t = b # u \<and> is_digit b \<and> dollar u)))"
    by (auto simp: re_match_amount_def Let_def split: list.splits)
  then consider "dollar ?r"
    | a t where "?r = CHR ''.'' # a # t" "is_digit a" "dollar t"
    | a b u where "?r = CHR ''.'' # a # b # u" "is_digit a" "is_digit b" "dollar u"
    by blast
  then show ?thesis
  proof cases
    case 1
    with dol [of ?r "[]"] have "?r = []" by simp
    with c have "c = ?ip" by simp
    with ip have "plain_decimal c ?ip []" by (simp add: plain_decimal_def)
    then show ?thesis by blast
  next
    case 2
    with dol [of t "[CHR ''.'', a]"] have "?r = [CHR ''.'', a]" by simp
    with c have "c = ?ip @ CHR ''.'' # [a]" by simp
    with ip 2(2) have "plain_decimal c ?ip [a]" unfolding plain_decimal_def by simp
    then show ?thesis by blast
  next
    case 3
    with dol [of u "[CHR ''.'', a, b]"] have "?r = [CHR ''.'', a, b]" by simp
    with c have "c = ?ip @ CHR ''.'' # [a, b]" by simp
    with ip 3(2,3) have "plain_decimal c ?ip [a, b]" unfolding plain_decimal_def by simp
    then show ?thesis by blast
  qed
qed

lemma strip_last: "strip s = [] \<or> \<not> is_space (last (strip s))"
proof (cases "dropWhile is_space (rev (dropWhile is_space s))")
  case Nil
  then show ?thesis by (simp add: strip_def)
next
  case (Cons x xs)
  then have "\<not> is_space x"
    using hd_dropWhile [of is_space "rev (dropWhile is_space s)"] by auto
  with Cons show ?thesis by (simp add: strip_def)
qed

lemma replace_append: "replace old new (xs @ ys) = replace old new xs @ replace old new ys"
  by (simp add: replace_def)

lemma clean_last:
  "replace (CHR '','') ''.'' (strip s) = [] \<or>
   last (replace (CHR '','') ''.'' (strip s)) \<noteq> CHR 0x0A"
proof (cases "strip s = []")
  case True
  then show ?thesis by (simp add: replace_def)
next
  case False
  with strip_last [of s] have ns: "\<not> is_space (last (strip s))" by simp
  from False have "strip s = butlast (strip s) @ [last (strip s)]" by simp
  then have "replace (CHR '','') ''.'' (strip s) =
      replace (CHR '','') ''.'' (butlast (strip s)) @ replace (CHR '','') ''.'' [last (strip s)]"
    by (metis replace_append)
  moreover have "replace (CHR '','') ''.'' [last (strip s)] =
      [if last (strip s) = CHR '','' then CHR ''.'' else last (strip s)]"
    by (simp add: replace_def)
  ultimately have "last (replace (CHR '','') ''.'' (strip s)) =
      (if last (strip s) = CHR '','' then CHR ''.'' else last (strip s))"
    by simp
  with ns newline_is_space show ?thesis by auto
qed

lemma strip_plain_decimal:
  assumes "plain_decimal c ip fp" shows "strip c = c"
proof -
  from assms have d: "list_all is_digit ip" "ip \<noteq> []" "list_all is_digit fp"
    by (simp_all add: plain_decimal_def)
  from assms have "c \<noteq> []" by (auto simp: plain_decimal_def)
  from assms d have "hd c = hd ip" by (auto simp: plain_decimal_def)
  with d have "is_digit (hd c)" by (cases ip) simp_all
  then have h: "\<not> is_space (hd c)" by (rule is_digit_facts(2))
  from assms d have "last c \<in> set ip \<union> set fp"
    by (auto simp: plain_decimal_def length_Suc_conv numeral_2_eq_2)
  with d have "is_digit (last c)" by (auto simp: list_all_iff)
  then have l: "\<not> is_space (last c)" by (rule is_digit_facts(2))
  have keep: "dropWhile is_space xs = xs" if "xs \<noteq> []" "\<not> is_space (hd xs)" for xs
    using that by (cases xs) simp_all
  from h \<open>c \<noteq> []\<close> have 1: "dropWhile is_space c = c" by (rule keep [rotated])
  from l \<open>c \<noteq> []\<close> have 2: "dropWhile is_space (rev c) = rev c"
    by (intro keep) (simp_all add: hd_rev)
  show ?thesis by (simp add: strip_def 1 2)
qed

lemma decimal_value_plain_decimal:
  assumes "plain_decimal c ip fp"
  shows "decimal_value c = real (digits_value ip) + real (digits_value fp) / 10 ^ length fp"
proof -
  from assms have d: "list_all is_digit ip" by (simp add: plain_decimal_def)
  from assms consider "c = ip" "fp = []" | "c = ip @ CHR ''.'' # fp"
    by (auto simp: plain_decimal_def)
  then show ?thesis
  proof cases
    case 1
    then show ?thesis using d by (simp add: decimal_value_def split_digits digits_value_def)
  next
    case 2
    then show ?thesis using d by (simp add: decimal_value_def split_digits)
  qed
qed

lemma float_plain_decimal:
  assumes "plain_decimal c ip fp" shows "float c = Inr (decimal_value c)"
proof -
  from assms have d: "list_all is_digit ip" "ip \<noteq> []" "list_all is_digit fp"
    by (simp_all add: plain_decimal_def)
  have s: "strip c = c" using assms by (rule strip_plain_decimal)
  from assms consider "c = ip" | "c = ip @ CHR ''.'' # fp"
    by (auto simp: plain_decimal_def)
  then show ?thesis
  proof cases
    case 1
    with d have "takeWhile is_digit c = ip" "dropWhile is_digit c = []"
      by (simp_all add: split_digits)
    then show ?thesis using d by (simp add: float_def s Let_def)
  next
    case 2
    with d have "takeWhile is_digit c = ip" "dropWhile is_digit c = CHR ''.'' # fp"
      by (simp_all add: split_digits)
    then show ?thesis using d by (simp add: float_def s Let_def)
  qed
qed

text \<open>
  C7. \<open>validate_currency_amount\<close> strips the text and turns commas into dots; it
  succeeds exactly when the cleaned text is one or more digits, optionally followed by
  a dot and one or two digits, and its value is above 0; a success returns that value
  and the empty message, and every failure returns the value 0.
\<close>

theorem validate_currency_amount_spec:
  assumes "clean = replace (CHR '','') ''.'' (strip amount_str)"
  shows "(fst (validate_currency_amount amount_str) \<longleftrightarrow>
            spec_amount_pattern clean \<and> 0 < decimal_value clean) \<and>
         (fst (validate_currency_amount amount_str) \<longrightarrow>
            validate_currency_amount amount_str = (True, decimal_value clean, [])) \<and>
         (\<not> fst (validate_currency_amount amount_str) \<longrightarrow>
            fst (snd (validate_currency_amount amount_str)) = 0)"
proof (cases "re_match_amount clean")
  case False
  have "\<not> spec_amount_pattern clean"
  proof
    assume "spec_amount_pattern clean"
    then obtain ip fp where "plain_decimal clean ip fp" using spec_plain_decimal by blast
    then have "re_match_amount clean" by (rule plain_decimal_re)
    with False show False by simp
  qed
  with False show ?thesis
    by (simp add: validate_currency_amount_def assms [symmetric])
next
  case True
  have "clean = [] \<or> last clean \<noteq> CHR 0x0A"
    unfolding assms by (rule clean_last)
  with True obtain ip fp where cn: "plain_decimal clean ip fp" using re_plain_decimal by blast
  then have sp: "spec_amount_pattern clean" by (rule plain_decimal_spec)
  have fl: "float clean = Inr (decimal_value clean)" using cn by (rule float_plain_decimal)
  show ?thesis
    using True sp fl by (simp add: validate_currency_amount_def assms [symmetric])
qed

lemma validate_currency_amount_eval:
  "validate_currency_amount ''150.50'' = (True, 150.50, [])"
  "validate_currency_amount ''  150,5 '' = (True, 150.5, [])"
  "validate_currency_amount ''150.555'' = (False, 0, msg_amount_format)"
  "validate_currency_amount ''-100'' = (False, 0, msg_amount_format)"
  "validate_currency_amount ''0.00'' = (False, 0, msg_amount_positive)"
  by (simp_all add: validate_currency_amount_def strip_def replace_def is_space_def is_digit_def
        re_match_amount_def dollar_def float_def decimal_value_def digits_value_def Let_def)

theorem validate_currency_amount_spec_witness:
  "validate_currency_amount ''150.50'' = (True, 150.50, []) \<and>
   spec_amount_pattern ''150.50'' \<and> decimal_value ''150.50'' = 150.50 \<and>
   validate_currency_amount ''150.555'' = (False, 0, msg_amount_format) \<and>
   \<not> spec_amount_pattern ''150.555'' \<and>
   validate_currency_amount ''-100'' = (False, 0, msg_amount_format) \<and>
   \<not> spec_amount_pattern ''-100'' \<and>
   validate_currency_amount ''0.00'' = (False, 0, msg_amount_positive) \<and>
   spec_amount_pattern ''0.00'' \<and> decimal_value ''0.00'' = 0"
proof -
  have c: "replace (CHR '','') ''.'' (strip ''150.50'') = ''150.50''"
    "replace (CHR '','') ''.'' (strip ''150.555'') = ''150.555''"
    "replace (CHR '','') ''.'' (strip ''-100'') = ''-100''"
    "replace (CHR '','') ''.'' (strip ''0.00'') = ''0.00''"
    by (simp_all add: strip_def replace_def is_space_def)
  have d: "decimal_value ''150.50'' = 150.50" "decimal_value ''0.00'' = 0"
    by (simp_all add: decimal_value_def digits_value_def is_digit_def)
  have p: "spec_amount_pattern ''150.50''" "\<not> spec_amount_pattern ''150.555''"
    "\<not> spec_amount_pattern ''-100''" "spec_amount_pattern ''0.00''"
    by (simp_all add: spec_amount_pattern_def digits1_def is_digit_def)
  show ?thesis
    using validate_currency_amount_spec [OF c(1) [symmetric]]
          validate_currency_amount_spec [OF c(2) [symmetric]]
          validate_currency_amount_spec [OF c(3) [symmetric]]
          validate_currency_amount_spec [OF c(4) [symmetric]]
    by (simp add: validate_currency_amount_eval d p)
qed














section \<open>Properties of the storage\<close>

lemma filter_key_le_1:
  "distinct (map fst xs) \<Longrightarrow> length (filter (\<lambda>r. fst r = k) xs) \<le> 1"
  by (induction xs) (auto simp: image_iff filter_empty_conv)

lemma length_filter_split:
  "length (filter (\<lambda>r. fst r = k) xs) + length (filter (\<lambda>r. fst r \<noteq> k) xs) = length xs"
  by (induction xs) auto

lemma one_trip_db_eval:
  "one_trip_db = \<lparr>trips = [(1, test_trip)], expenses = [], trips_seq = 1, expenses_seq = 0\<rparr>"
  by (simp add: one_trip_db_def add_trip_def init_db_def next_rowid_def Let_def)

lemma one_expense_db_eval:
  "one_expense_db =
     \<lparr>trips = [(1, test_trip\<lparr>t_actual_spent := 150\<rparr>)],
      expenses = [(1, test_expense 1 150 TRANSPORT)], trips_seq = 1, expenses_seq = 1\<rparr>"
  by (simp add: one_expense_db_def one_trip_db_eval add_expense_def next_rowid_def
        sum_amounts_def test_expense_def Let_def)

text \<open>
  Unique primary keys are an invariant of the storage: they hold in a new database and
  every operation keeps them.
\<close>

lemma next_rowid_fresh:
  "seq < next_rowid seq ids" "i \<in> set ids \<Longrightarrow> i < next_rowid seq ids"
proof -
  have a: "seq \<le> foldr max ids seq" by (induction ids) auto
  have b: "i \<in> set ids \<Longrightarrow> i \<le> foldr max ids seq" by (induction ids) auto
  show "seq < next_rowid seq ids" using a by (simp add: next_rowid_def)
  show "i \<in> set ids \<Longrightarrow> i < next_rowid seq ids" using b by (simp add: next_rowid_def)
qed

lemma primary_keys_init_db: "primary_keys init_db"
  by (simp add: primary_keys_def init_db_def)

lemma primary_keys_add_trip:
  assumes "primary_keys db" shows "primary_keys (snd (add_trip trip db))"
proof -
  let ?n = "next_rowid (trips_seq db) (map fst (trips db))"
  have "?n \<notin> set (map fst (trips db))"
    using next_rowid_fresh(2) [of ?n "map fst (trips db)" "trips_seq db"] by auto
  moreover have "list_all (\<lambda>r. fst r \<le> ?n) (trips db)"
    using next_rowid_fresh(2) [of _ "map fst (trips db)" "trips_seq db"]
    by (fastforce simp: list_all_iff)
  ultimately show ?thesis
    using assms by (simp add: primary_keys_def add_trip_def Let_def)
qed

lemma primary_keys_add_expense:
  assumes "primary_keys db" shows "primary_keys (snd (add_expense expense db))"
proof -
  let ?n = "next_rowid (expenses_seq db) (map fst (expenses db))"
  have "?n \<notin> set (map fst (expenses db))"
    using next_rowid_fresh(2) [of ?n "map fst (expenses db)" "expenses_seq db"] by auto
  moreover have "list_all (\<lambda>r. fst r \<le> ?n) (expenses db)"
    using next_rowid_fresh(2) [of _ "map fst (expenses db)" "expenses_seq db"]
    by (fastforce simp: list_all_iff)
  moreover have "fst \<circ> (\<lambda>(i, t). if i = k then (i, f t) else (i, t)) = fst" for k :: int
    and f :: "Trip \<Rightarrow> Trip"
    by (auto simp: fun_eq_iff)
  moreover have "(\<lambda>r. fst r \<le> m) \<circ> (\<lambda>(i, t). if i = k then (i, f t) else (i, t)) =
      (\<lambda>r. fst r \<le> m)" for k m :: int and f :: "Trip \<Rightarrow> Trip"
    by (auto simp: fun_eq_iff)
  ultimately show ?thesis
    using assms by (simp add: primary_keys_def add_expense_def Let_def list.pred_map)
qed

lemma primary_keys_delete:
  assumes "primary_keys db"
  shows "primary_keys (snd (delete_expense expense_id db))"
    and "primary_keys (snd (delete_trip trip_id db))"
  using assms
  by (simp_all add: primary_keys_def delete_expense_def delete_trip_def sql_delete_trip_def
        foreign_keys_def Let_def distinct_map_filter list_all_iff)

text \<open>
  C9. In a database whose primary keys are unique, \<open>delete_expense\<close> leaves the trips
  table as it was (so every trip reads back with the same \<open>actual_spent\<close>), keeps
  every expense row with another id, removes at most one row, and returns true exactly
  when a row was removed.
\<close>

theorem delete_expense_frame:
  assumes "primary_keys db" and "delete_expense expense_id db = (removed, db')"
  shows "trips db' = trips db \<and>
         get_all_trips db' = get_all_trips db \<and>
         expenses db' = filter (\<lambda>r. fst r \<noteq> expense_id) (expenses db) \<and>
         length (expenses db) \<le> length (expenses db') + 1 \<and>
         (removed \<longleftrightarrow> length (expenses db') < length (expenses db))"
proof -
  let ?hit = "filter (\<lambda>r. fst r = expense_id) (expenses db)"
  from assms(2) have db': "db' = db\<lparr>expenses := filter (\<lambda>r. fst r \<noteq> expense_id) (expenses db)\<rparr>"
    and r: "removed = (length ?hit > 0)"
    by (auto simp: delete_expense_def Let_def)
  from assms(1) have "distinct (map fst (expenses db))"
    by (simp add: primary_keys_def)
  then have "length ?hit \<le> 1"
    by (rule filter_key_le_1)
  moreover have "length ?hit + length (expenses db') = length (expenses db)"
    using length_filter_split [of expense_id "expenses db"] by (simp add: db')
  ultimately have "length (expenses db) \<le> length (expenses db') + 1"
    and "removed \<longleftrightarrow> length (expenses db') < length (expenses db)"
    using r by arith+
  moreover have "trips db' = trips db" and "get_all_trips db' = get_all_trips db"
    and "expenses db' = filter (\<lambda>r. fst r \<noteq> expense_id) (expenses db)"
    by (simp_all add: db' get_all_trips_def)
  ultimately show ?thesis by blast
qed

theorem delete_expense_frame_witness:
  "primary_keys one_expense_db \<and>
   delete_expense 1 one_expense_db = (True, one_expense_db\<lparr>expenses := []\<rparr>) \<and>
   trips (one_expense_db\<lparr>expenses := []\<rparr>) = [(1, test_trip\<lparr>t_actual_spent := 150\<rparr>)] \<and>
   get_all_trips (one_expense_db\<lparr>expenses := []\<rparr>) = get_all_trips one_expense_db"
proof -
  have pk: "primary_keys one_expense_db"
    by (simp add: one_expense_db_eval primary_keys_def)
  have de: "delete_expense 1 one_expense_db = (True, one_expense_db\<lparr>expenses := []\<rparr>)"
    by (simp add: one_expense_db_eval delete_expense_def)
  from delete_expense_frame [OF pk de] pk de show ?thesis
    by (simp add: one_expense_db_eval)
qed

lemma find_exists_Some:
  "\<exists>x \<in> set xs. P x \<Longrightarrow> \<exists>y. find P xs = Some y \<and> y \<in> set xs \<and> P y"
  by (induction xs) auto

text \<open>
  C2. When the trip an expense refers to exists, \<open>add_expense\<close> appends the expense
  row and the trip then reads back with an \<open>actual_spent\<close> equal to the sum of the
  amounts of all expense rows now recorded for it. (In the fixture: adding 150 to a
  trip that had spent 0 makes it read back 150.)
\<close>

theorem add_expense_reconciles_actual_spent:
  assumes "(e_trip_id expense, t) \<in> set (trips db)"
    and "add_expense expense db = (expense_id, db')"
  shows "expenses db' = expenses db @ [(expense_id, expense)] \<and>
         (\<exists>t'. get_trip_by_id db' (e_trip_id expense) = Some t' \<and>
               t_actual_spent t' =
                 sum_list (map (\<lambda>r. e_amount (snd r))
                   (filter (\<lambda>r. e_trip_id (snd r) = e_trip_id expense) (expenses db'))))"
proof -
  define tid where "tid = e_trip_id expense"
  define tot where "tot = sum_amounts tid (expenses db @ [(expense_id, expense)])"
  define upd where "upd = (\<lambda>(i, x). if i = tid then (i, x\<lparr>t_actual_spent := tot\<rparr>) else (i, x :: Trip))"
  from assms(2) have ex: "expenses db' = expenses db @ [(expense_id, expense)]"
    and tr: "trips db' = map upd (trips db)"
    by (auto simp: add_expense_def Let_def tid_def tot_def upd_def)
  let ?P = "\<lambda>x. t_id x = Some tid"
  have all: "t_actual_spent y = tot" if "y \<in> set (get_all_trips db')" "?P y" for y
    using that by (auto simp: get_all_trips_def tr upd_def split: if_splits)
  have "(tid, t\<lparr>t_actual_spent := tot\<rparr>) \<in> set (trips db')"
    using assms(1) by (force simp: tr upd_def tid_def)
  then have "\<exists>x \<in> set (get_all_trips db'). ?P x"
    by (force simp: get_all_trips_def)
  from find_exists_Some [OF this] obtain y
    where "find ?P (get_all_trips db') = Some y" "y \<in> set (get_all_trips db')" "?P y"
    by blast
  with all have "get_trip_by_id db' tid = Some y \<and> t_actual_spent y = tot"
    by (simp add: get_trip_by_id_def)
  then show ?thesis
    using ex by (auto simp: tid_def tot_def sum_amounts_def)
qed

theorem add_expense_reconciles_actual_spent_witness:
  "(1, test_trip) \<in> set (trips one_trip_db) \<and>
   t_actual_spent test_trip = 0 \<and>
   add_expense (test_expense 1 150 TRANSPORT) one_trip_db = (1, one_expense_db) \<and>
   get_trip_by_id one_expense_db 1 = Some (test_trip\<lparr>t_id := Some 1, t_actual_spent := 150\<rparr>)"
proof -
  have a: "(e_trip_id (test_expense 1 150 TRANSPORT), test_trip) \<in> set (trips one_trip_db)"
    by (simp add: one_trip_db_eval test_expense_def)
  have b: "add_expense (test_expense 1 150 TRANSPORT) one_trip_db = (1, one_expense_db)"
    by (simp add: one_expense_db_eval one_trip_db_eval add_expense_def next_rowid_def
        sum_amounts_def test_expense_def Let_def)
  from add_expense_reconciles_actual_spent [OF a b] a b show ?thesis
    by (simp add: one_expense_db_eval one_trip_db_eval test_expense_def test_trip_def
          get_trip_by_id_def get_all_trips_def)
qed

lemma delete_trip_expenses_unchanged:
  "expenses (snd (delete_trip trip_id db)) = expenses db"
  by (simp add: delete_trip_def sql_delete_trip_def foreign_keys_def Let_def)

text \<open>
  C1. The cascade does not happen. In the database that holds one trip (id 1) and one
  expense of that trip, \<open>delete_trip 1\<close> returns true and removes the trip row, and
  \<open>get_expenses_by_trip\<close> for trip 1 afterwards still returns the expense.
\<close>

theorem delete_trip_keeps_expenses:
  "delete_trip 1 one_expense_db = (True, one_expense_db\<lparr>trips := []\<rparr>) \<and>
   get_expenses_by_trip (one_expense_db\<lparr>trips := []\<rparr>) 1 =
     Inr [(test_expense 1 150 TRANSPORT)\<lparr>e_id := Some 1\<rparr>]"
  by (simp add: one_expense_db_eval delete_trip_def sql_delete_trip_def foreign_keys_def
        get_expenses_by_trip_def test_expense_def new_Expense_def post_init_def)

section \<open>Properties of the analysis\<close>

text \<open>
  C5, counterexample. An analyzer that was given no expense at all answers every trip
  id with the empty dictionary, not with the summary of zeros.
\<close>

theorem summary_empty_analyzer_counterexample:
  "filter (\<lambda>e. e_trip_id e = 1) (a_expenses \<lparr>a_trips = [test_trip], a_expenses = []\<rparr>) = [] \<and>
   get_trip_expense_summary \<lparr>a_trips = [test_trip], a_expenses = []\<rparr> 1 = Empty_dict \<and>
   get_trip_expense_summary \<lparr>a_trips = [test_trip], a_expenses = []\<rparr> 1 \<noteq>
     Summary \<lparr>s_total = 0, s_by_category = [], s_daily_avg = 0, s_max_expense = 0,
              s_expense_count = 0\<rparr>"
  by (simp add: get_trip_expense_summary_def)

text \<open>
  C5, amended. For a trip that has no expense among those the analyzer was given,
  \<open>get_trip_expense_summary\<close> returns the summary of zeros (total 0, no category,
  daily average 0, maximum 0, count 0) when the analyzer holds at least one expense
  (of other trips), and the empty dictionary when it holds none; it never fails.
\<close>

theorem summary_of_trip_without_expenses:
  assumes "filter (\<lambda>e. e_trip_id e = trip_id) (a_expenses an) = []"
  shows "get_trip_expense_summary an trip_id =
           (if a_expenses an = [] then Empty_dict
            else Summary \<lparr>s_total = 0, s_by_category = [], s_daily_avg = 0,
                          s_max_expense = 0, s_expense_count = 0\<rparr>)"
  using assms by (simp add: get_trip_expense_summary_def)

theorem summary_of_trip_without_expenses_witness:
  "get_trip_expense_summary \<lparr>a_trips = [test_trip], a_expenses = [test_expense 1 100 FOOD]\<rparr> 2 =
     Summary \<lparr>s_total = 0, s_by_category = [], s_daily_avg = 0, s_max_expense = 0,
              s_expense_count = 0\<rparr> \<and>
   get_trip_expense_summary \<lparr>a_trips = [test_trip], a_expenses = []\<rparr> 2 = Empty_dict"
  using summary_of_trip_without_expenses
          [of 2 "\<lparr>a_trips = [test_trip], a_expenses = [test_expense 1 100 FOOD]\<rparr>"]
        summary_of_trip_without_expenses [of 2 "\<lparr>a_trips = [test_trip], a_expenses = []\<rparr>"]
  by (simp add: test_expense_def)

text \<open>
  C6. \<open>get_trip_recommendations\<close> returns at most 5 entries; when the trip has no
  expense among those of the analyzer, and whenever the summary's expense count is 0,
  it returns the single entry "no data".
\<close>

theorem recommendations_bounded:
  "length (get_trip_recommendations an trip_id) \<le> 5 \<and>
   (filter (\<lambda>e. e_trip_id e = trip_id) (a_expenses an) = [] \<longrightarrow>
      get_trip_recommendations an trip_id = [No_data]) \<and>
   (\<forall>s. get_trip_expense_summary an trip_id = Summary s \<and> s_expense_count s = 0 \<longrightarrow>
      get_trip_recommendations an trip_id = [No_data])"
proof (intro conjI allI impI)
  show "length (get_trip_recommendations an trip_id) \<le> 5"
    by (simp add: get_trip_recommendations_def Let_def split: summary_dict.splits)
next
  assume "filter (\<lambda>e. e_trip_id e = trip_id) (a_expenses an) = []"
  then show "get_trip_recommendations an trip_id = [No_data]"
    by (simp add: get_trip_recommendations_def get_trip_expense_summary_def)
next
  fix s assume "get_trip_expense_summary an trip_id = Summary s \<and> s_expense_count s = 0"
  then show "get_trip_recommendations an trip_id = [No_data]"
    by (simp add: get_trip_recommendations_def)
qed

lemma summary_fixture_eval:
  "get_trip_expense_summary summary_fixture 1 =
     Summary \<lparr>s_total = 350, s_by_category = [(FOOD, 150), (TRANSPORT, 200)],
              s_daily_avg = 350, s_max_expense = 200, s_expense_count = 3\<rparr>"
  by (simp add: summary_fixture_def get_trip_expense_summary_def test_expense_def
        group_by_category_def label_order_def dropna_def Let_def)

theorem recommendations_bounded_witness:
  "get_trip_recommendations summary_fixture 1 =
     [Category_share TRANSPORT (200 / 350 * 100), High_daily_average 350] \<and>
   length (get_trip_recommendations summary_fixture 1) \<le> 5 \<and>
   get_trip_recommendations summary_fixture 2 = [No_data]"
  using recommendations_bounded [of summary_fixture 1]
        recommendations_bounded [of summary_fixture 2]
  by (simp add: get_trip_recommendations_def summary_fixture_eval)
    (simp add: summary_fixture_def test_expense_def)

end
